theory Spec2Isabelle
  imports Main "HOL-Library.Word"
begin

section \<open>The in-memory editable stream of the sample application\<close>

text \<open>
  The class \<open>EditableStreamOverBuffer\<close> (files \<open>editable_stream_over_buffer.h\<close> and
  \<open>editable_stream_over_buffer.cpp\<close>) keeps a \<open>std::vector<uint8_t>\<close>, a logical size and
  a cursor, the last two as \<open>int64_t\<close>. The fields are modelled as they are declared:
  the vector as a list of bytes, the two integers as 64-bit words that are read as
  two's complement values (\<open>sint\<close>) and compared with the signed orders. Sums and
  differences are the ones of the words; the lemmas on the member functions show that on
  the streams a client can hold none of them leaves the signed range, so that they are
  the exact integer results.
\<close>

type_synonym uint8_t = "8 word"
type_synonym int64_t = "64 word"

record EditableStreamOverBuffer =
  mBuffer :: "uint8_t list"
  mSize :: int64_t
  mPosition :: int64_t

text \<open>
  Every member function either returns a value, or leaves by a C++ exception (all of
  them are \<open>std::runtime_error\<close> with a message), or steps outside what the language
  defines: an iterator or index beyond the vector, or a read beyond the bytes the caller
  handed in. The object survives an exception, so the state is part of that outcome too.
  Running out of memory while the vector grows is not part of the model.
\<close>

datatype exception = runtime_error string

datatype 'a outcome =
    Returned 'a EditableStreamOverBuffer
  | Thrown exception EditableStreamOverBuffer
  | Undefined

text \<open>\<open>std::numeric_limits<int64_t>::max()\<close>.\<close>

definition int64_max :: int64_t where
  "int64_max = 9223372036854775807"

subsection \<open>The operations of the standard library that the class uses\<close>

text \<open>
  \<open>v.insert(v.begin() + i, first, last)\<close>: the position has to lie inside the vector
  or at its end.
\<close>

definition vector_insert :: "'a list \<Rightarrow> nat \<Rightarrow> 'a list \<Rightarrow> 'a list option" where
  "vector_insert v i xs = (if i \<le> length v then Some (take i v @ xs @ drop i v) else None)"

text \<open>\<open>v.erase(v.begin() + i, v.begin() + j)\<close>: a valid range of the vector.\<close>

definition vector_erase :: "'a list \<Rightarrow> nat \<Rightarrow> nat \<Rightarrow> 'a list option" where
  "vector_erase v i j = (if i \<le> j \<and> j \<le> length v then Some (take i v @ drop j v) else None)"

text \<open>
  Reading \<open>count\<close> bytes from offset \<open>off\<close> of a region of memory, as \<open>memcpy\<close> and
  the iterator pair \<open>buffer, buffer + count\<close> do: all of them have to be there.
\<close>

definition read_bytes :: "'a list \<Rightarrow> nat \<Rightarrow> nat \<Rightarrow> 'a list option" where
  "read_bytes m off count =
     (if off + count \<le> length m then Some (take count (drop off m)) else None)"

subsection \<open>Constructor and member functions\<close>

text \<open>
  The constructor stores the byte sequence, its length (a \<open>size_t\<close> converted to
  \<open>int64_t\<close>) and the cursor 0.
\<close>

definition new_EditableStreamOverBuffer :: "uint8_t list \<Rightarrow> EditableStreamOverBuffer" where
  "new_EditableStreamOverBuffer buffer =
     \<lparr>mBuffer = buffer, mSize = word_of_nat (length buffer), mPosition = 0\<rparr>"

text \<open>
  \<open>Read\<close> fills the caller's buffer; the model returns the count together with the
  bytes that were copied to the start of that buffer.
\<close>

definition Read ::
    "EditableStreamOverBuffer \<Rightarrow> int64_t \<Rightarrow> (int64_t \<times> uint8_t list) outcome" where
  "Read st bufferLength =
     (if bufferLength \<le>s 0 then Returned (0, []) st
      else
        let bytesRead = (if bufferLength \<le>s mSize st - mPosition st then bufferLength
                         else mSize st - mPosition st)
        in if bytesRead \<noteq> 0 then
             (case read_bytes (mBuffer st) (unat (mPosition st)) (unat bytesRead) of
                None \<Rightarrow> Undefined
              | Some bs \<Rightarrow>
                  Returned (bytesRead, bs) (st\<lparr>mPosition := mPosition st + bytesRead\<rparr>))
           else Returned (bytesRead, []) st)"

text \<open>
  The caller's buffer of \<open>Insert\<close>, \<open>Update\<close> and \<open>Write\<close> is the list of the bytes that
  can be read from the pointer; \<open>bufferLength\<close> is passed beside it, as in the source.
\<close>

definition Insert ::
    "EditableStreamOverBuffer \<Rightarrow> uint8_t list \<Rightarrow> int64_t \<Rightarrow> int64_t outcome" where
  "Insert st buffer bufferLength =
     (if bufferLength \<le>s 0 then Returned 0 st
      else if int64_max - mSize st <s bufferLength then
        Thrown (runtime_error ''Inserting buffer would exceed maximum stream length.'') st
      else
        (case read_bytes buffer 0 (unat bufferLength) of
           None \<Rightarrow> Undefined
         | Some bs \<Rightarrow>
             (case vector_insert (mBuffer st) (unat (mPosition st)) bs of
                None \<Rightarrow> Undefined
              | Some v \<Rightarrow>
                  Returned bufferLength
                    (st\<lparr>mBuffer := v,
                        mSize := mSize st + bufferLength,
                        mPosition := mPosition st + bufferLength\<rparr>))))"

definition Delete :: "EditableStreamOverBuffer \<Rightarrow> int64_t \<Rightarrow> int64_t outcome" where
  "Delete st numBytes =
     (if numBytes \<le>s 0 then Returned 0 st
      else
        let bytesDeleted = (if numBytes \<le>s mSize st - mPosition st then numBytes
                            else mSize st - mPosition st)
        in if bytesDeleted \<noteq> 0 then
             (case vector_erase (mBuffer st) (unat (mPosition st))
                     (unat (mPosition st + bytesDeleted)) of
                None \<Rightarrow> Undefined
              | Some v \<Rightarrow>
                  Returned bytesDeleted (st\<lparr>mBuffer := v, mSize := mSize st - bytesDeleted\<rparr>))
           else Returned bytesDeleted st)"

text \<open>
  \<open>Update\<close> calls \<open>Delete\<close>, drops its result, and returns what \<open>Insert\<close> returns on
  the state \<open>Delete\<close> left. An exception of either call leaves \<open>Update\<close> at once.
\<close>

definition Update ::
    "EditableStreamOverBuffer \<Rightarrow> uint8_t list \<Rightarrow> int64_t \<Rightarrow> int64_t \<Rightarrow> int64_t outcome" where
  "Update st buffer bufferLength replaceLength =
     (case Delete st replaceLength of
        Returned _ st1 \<Rightarrow> Insert st1 buffer bufferLength
      | Thrown e st1 \<Rightarrow> Thrown e st1
      | Undefined \<Rightarrow> Undefined)"

definition Write ::
    "EditableStreamOverBuffer \<Rightarrow> uint8_t list \<Rightarrow> int64_t \<Rightarrow> int64_t outcome" where
  "Write st buffer bufferLength = Update st buffer bufferLength bufferLength"

definition Flush :: "EditableStreamOverBuffer \<Rightarrow> bool outcome" where
  "Flush st = Returned True st"

definition Seek :: "EditableStreamOverBuffer \<Rightarrow> int64_t \<Rightarrow> unit outcome" where
  "Seek st position =
     (if position <s 0 then
        Thrown (runtime_error ''Position must not be less than zero.'') st
      else if mSize st <s position then
        Thrown (runtime_error ''Position must not be larger than size.'') st
      else Returned () (st\<lparr>mPosition := position\<rparr>))"

definition CanRead :: "EditableStreamOverBuffer \<Rightarrow> bool" where
  "CanRead st = True"

definition CanWrite :: "EditableStreamOverBuffer \<Rightarrow> bool" where
  "CanWrite st = True"

definition Position :: "EditableStreamOverBuffer \<Rightarrow> int64_t outcome" where
  "Position st = Returned (mPosition st) st"

definition Size :: "EditableStreamOverBuffer \<Rightarrow> int64_t outcome" where
  "Size st = Returned (mSize st) st"

text \<open>The overload \<open>Size(int64_t value)\<close>.\<close>

definition Size_set :: "EditableStreamOverBuffer \<Rightarrow> int64_t \<Rightarrow> unit outcome" where
  "Size_set st v = Thrown (runtime_error ''Not Implemented'') st"

subsection \<open>The invariant of the class\<close>

text \<open>
  The fields are private, so a client only ever holds a stream that the constructor
  built and the member functions changed. What those states have in common: the cursor
  lies between 0 and the size, and the size is the number of bytes in the vector.
\<close>

definition stream_inv :: "EditableStreamOverBuffer \<Rightarrow> bool" where
  "stream_inv st \<longleftrightarrow>
     0 \<le> sint (mPosition st) \<and> sint (mPosition st) \<le> sint (mSize st) \<and>
     sint (mSize st) = int (length (mBuffer st))"

text \<open>
  The invariant of whatever stream a call leaves behind, be it by a return or by an
  exception. A call that steps outside the language leaves no stream to speak of.
\<close>

definition outcome_inv :: "'a outcome \<Rightarrow> bool" where
  "outcome_inv r = (case r of
      Returned _ st \<Rightarrow> stream_inv st
    | Thrown _ st \<Rightarrow> stream_inv st
    | Undefined \<Rightarrow> True)"

subsection \<open>Two calls in a row, as a client makes them\<close>

text \<open>
  The specification describes \<open>Update\<close> by what a client would get from calling
  \<open>Delete(replaceLength)\<close> and then \<open>Insert(buffer, bufferLength)\<close>. The second call
  of such a sequence works on the stream that the first call left and yields the
  result of the sequence; it is not reached when the first call does not return.
\<close>

definition then_call ::
    "'a outcome \<Rightarrow> (EditableStreamOverBuffer \<Rightarrow> 'b outcome) \<Rightarrow> 'b outcome" where
  "then_call first second = (case first of
      Returned _ st \<Rightarrow> second st
    | Thrown e st \<Rightarrow> Thrown e st
    | Undefined \<Rightarrow> Undefined)"

definition Delete_then_Insert ::
    "EditableStreamOverBuffer \<Rightarrow> uint8_t list \<Rightarrow> int64_t \<Rightarrow> int64_t \<Rightarrow> int64_t outcome" where
  "Delete_then_Insert st B n r = then_call (Delete st r) (\<lambda>st1. Insert st1 B n)"

section \<open>Facts about the signed 64-bit values\<close>

lemma sint_int64_max: "sint int64_max = 9223372036854775807"
  by (simp add: int64_max_def)

lemma int64_range:
  "- 9223372036854775808 \<le> sint (x::int64_t) \<and> sint x \<le> 9223372036854775807"
  using sint_ge [of x] sint_lt [of x] by simp

lemma sint_sub_exact:
  fixes a b :: int64_t
  assumes "- 9223372036854775808 \<le> sint a - sint b" "sint a - sint b \<le> 9223372036854775807"
  shows "sint (a - b) = sint a - sint b"
  using assms by (simp add: sint_word_ariths signed_take_bit_int_eq_self)

lemma sint_add_exact:
  fixes a b :: int64_t
  assumes "- 9223372036854775808 \<le> sint a + sint b" "sint a + sint b \<le> 9223372036854775807"
  shows "sint (a + b) = sint a + sint b"
  using assms by (simp add: sint_word_ariths signed_take_bit_int_eq_self)

lemma sint_eq_zero: "(a::int64_t) = 0 \<longleftrightarrow> sint a = 0"
  using word_eq_iff_signed [of a 0, where ?'a = int] by simp

lemma uint_nonneg:
  fixes a :: int64_t
  assumes "0 \<le> sint a"
  shows "uint a = sint a"
proof -
  have "sint a < 2 ^ 64" using sint_lt [of a] by simp
  then have "take_bit 64 (sint a) = sint a"
    using assms by (simp add: take_bit_int_eq_self)
  then show ?thesis by (simp add: uint_sint [of a])
qed

lemma unat_nonneg:
  fixes a :: int64_t
  assumes "0 \<le> sint a"
  shows "unat a = nat (sint a)"
  by (simp only: unat_eq_nat_uint uint_nonneg [OF assms])

lemma sint_of_nat_length:
  assumes "n < 2 ^ 63"
  shows "sint (word_of_nat n :: int64_t) = int n"
proof -
  have "sint (word_of_nat n :: int64_t) = signed_take_bit 63 (int n)"
    using signed_of_nat [of n, where ?'a = int and ?'b = 64] by simp
  also have "\<dots> = int n"
    using assms by (simp add: signed_take_bit_int_eq_self)
  finally show ?thesis .
qed

section \<open>The member functions on the streams a client can hold\<close>


lemma inv_remaining:
  assumes "stream_inv st"
  shows "sint (mSize st - mPosition st) = sint (mSize st) - sint (mPosition st)"
proof -
  have "0 \<le> sint (mPosition st)" "sint (mPosition st) \<le> sint (mSize st)"
    using assms by (simp_all add: stream_inv_def)
  moreover have "sint (mSize st) \<le> 9223372036854775807"
    using int64_range [of "mSize st"] by simp
  ultimately show ?thesis by (intro sint_sub_exact) linarith+
qed

lemma clamp_remaining:
  assumes "stream_inv st" "0 < sint n"
  defines "d \<equiv> (if n \<le>s mSize st - mPosition st then n else mSize st - mPosition st)"
  shows "sint d = min (sint n) (sint (mSize st) - sint (mPosition st))"
  using inv_remaining [OF assms(1)] by (simp add: d_def word_sle_eq min_def)

lemma Delete_positive:
  assumes "stream_inv st" "0 < sint n"
  defines "d \<equiv> (if n \<le>s mSize st - mPosition st then n else mSize st - mPosition st)"
  shows "Delete st n =
           Returned d (st\<lparr>mBuffer := take (nat (sint (mPosition st))) (mBuffer st)
                                       @ drop (nat (sint (mPosition st)) + nat (sint d)) (mBuffer st),
                           mSize := mSize st - d\<rparr>)"
    and "sint (mSize st - d) = sint (mSize st) - sint d"
proof -
  have p0: "0 \<le> sint (mPosition st)" and ps: "sint (mPosition st) \<le> sint (mSize st)"
    and sl: "sint (mSize st) = int (length (mBuffer st))"
    using assms(1) by (simp_all add: stream_inv_def)
  have smax: "sint (mSize st) \<le> 9223372036854775807"
    using int64_range [of "mSize st"] by simp
  have dv: "sint d = min (sint n) (sint (mSize st) - sint (mPosition st))"
    unfolding d_def using assms(1,2) by (rule clamp_remaining)
  have d0: "0 \<le> sint d" and dle: "sint d \<le> sint (mSize st) - sint (mPosition st)"
    using dv assms(2) ps by simp_all
  show sz: "sint (mSize st - d) = sint (mSize st) - sint d"
    using d0 dle p0 smax by (intro sint_sub_exact) linarith+
  have pd: "sint (mPosition st + d) = sint (mPosition st) + sint d"
    using d0 dle p0 smax by (intro sint_add_exact) linarith+
  have up: "unat (mPosition st) = nat (sint (mPosition st))"
    using p0 by (rule unat_nonneg)
  have upd: "unat (mPosition st + d) = nat (sint (mPosition st)) + nat (sint d)"
    using unat_nonneg [of "mPosition st + d"] pd p0 d0 by (simp add: nat_add_distrib)
  have er: "vector_erase (mBuffer st) (unat (mPosition st)) (unat (mPosition st + d))
              = Some (take (nat (sint (mPosition st))) (mBuffer st)
                       @ drop (nat (sint (mPosition st)) + nat (sint d)) (mBuffer st))"
    using up upd sl dle p0 d0 by (simp add: vector_erase_def)
  have nle: "\<not> n \<le>s 0" using assms(2) by (simp add: word_sle_eq)
  show "Delete st n =
           Returned d (st\<lparr>mBuffer := take (nat (sint (mPosition st))) (mBuffer st)
                                       @ drop (nat (sint (mPosition st)) + nat (sint d)) (mBuffer st),
                           mSize := mSize st - d\<rparr>)"
  proof (cases "d = 0")
    case True
    then have "Delete st n = Returned d st"
      using nle by (simp add: Delete_def d_def Let_def)
    moreover have "st\<lparr>mBuffer := take (nat (sint (mPosition st))) (mBuffer st)
                                       @ drop (nat (sint (mPosition st)) + nat (sint d)) (mBuffer st),
                           mSize := mSize st - d\<rparr> = st"
      using True by simp
    ultimately show ?thesis by simp
  next
    case False
    then show ?thesis
      using nle er unfolding Delete_def d_def [symmetric] Let_def by simp
  qed
qed


lemma overflow_test_exact:
  assumes "stream_inv st"
  shows "int64_max - mSize st <s n \<longleftrightarrow> 9223372036854775807 - sint (mSize st) < sint n"
proof -
  have "0 \<le> sint (mSize st)" using assms by (simp add: stream_inv_def)
  moreover have "sint (mSize st) \<le> 9223372036854775807"
    using int64_range [of "mSize st"] by simp
  ultimately have "sint (int64_max - mSize st) = sint int64_max - sint (mSize st)"
    by (intro sint_sub_exact) (simp_all add: sint_int64_max)
  then show ?thesis by (simp add: word_sless_alt sint_int64_max)
qed

lemma Insert_positive:
  assumes "stream_inv st" "0 < sint n"
    and "sint (mSize st) + sint n \<le> 9223372036854775807"
    and "nat (sint n) \<le> length B"
  shows "Insert st B n =
           Returned n (st\<lparr>mBuffer := take (nat (sint (mPosition st))) (mBuffer st)
                                       @ take (nat (sint n)) B
                                       @ drop (nat (sint (mPosition st))) (mBuffer st),
                           mSize := mSize st + n,
                           mPosition := mPosition st + n\<rparr>)"
    and "sint (mSize st + n) = sint (mSize st) + sint n"
    and "sint (mPosition st + n) = sint (mPosition st) + sint n"
proof -
  have p0: "0 \<le> sint (mPosition st)" and ps: "sint (mPosition st) \<le> sint (mSize st)"
    and sl: "sint (mSize st) = int (length (mBuffer st))"
    using assms(1) by (simp_all add: stream_inv_def)
  show "sint (mSize st + n) = sint (mSize st) + sint n"
    using assms(2,3) p0 ps by (intro sint_add_exact) linarith+
  show "sint (mPosition st + n) = sint (mPosition st) + sint n"
    using assms(2,3) p0 ps by (intro sint_add_exact) linarith+
  have nle: "\<not> n \<le>s 0" using assms(2) by (simp add: word_sle_eq)
  have nov: "\<not> int64_max - mSize st <s n"
    using overflow_test_exact [OF assms(1), of n] assms(3) by simp
  have un: "unat n = nat (sint n)" using assms(2) by (intro unat_nonneg) simp
  have up: "unat (mPosition st) = nat (sint (mPosition st))"
    using p0 by (rule unat_nonneg)
  have rd: "read_bytes B 0 (unat n) = Some (take (nat (sint n)) B)"
    using un assms(4) by (simp add: read_bytes_def)
  have ins: "vector_insert (mBuffer st) (unat (mPosition st)) (take (nat (sint n)) B)
               = Some (take (nat (sint (mPosition st))) (mBuffer st)
                         @ take (nat (sint n)) B
                         @ drop (nat (sint (mPosition st))) (mBuffer st))"
    using up p0 ps sl by (simp add: vector_insert_def)
  show "Insert st B n =
           Returned n (st\<lparr>mBuffer := take (nat (sint (mPosition st))) (mBuffer st)
                                       @ take (nat (sint n)) B
                                       @ drop (nat (sint (mPosition st))) (mBuffer st),
                           mSize := mSize st + n,
                           mPosition := mPosition st + n\<rparr>)"
    using nle nov rd ins by (simp add: Insert_def)
qed

lemma Read_positive:
  assumes "stream_inv st" "0 < sint n"
  defines "k \<equiv> (if n \<le>s mSize st - mPosition st then n else mSize st - mPosition st)"
  shows "Read st n =
           Returned (k, take (nat (sint k)) (drop (nat (sint (mPosition st))) (mBuffer st)))
             (st\<lparr>mPosition := mPosition st + k\<rparr>)"
    and "sint (mPosition st + k) = sint (mPosition st) + sint k"
proof -
  have p0: "0 \<le> sint (mPosition st)" and ps: "sint (mPosition st) \<le> sint (mSize st)"
    and sl: "sint (mSize st) = int (length (mBuffer st))"
    using assms(1) by (simp_all add: stream_inv_def)
  have smax: "sint (mSize st) \<le> 9223372036854775807"
    using int64_range [of "mSize st"] by simp
  have kv: "sint k = min (sint n) (sint (mSize st) - sint (mPosition st))"
    unfolding k_def using assms(1,2) by (rule clamp_remaining)
  have k0: "0 \<le> sint k" and kle: "sint k \<le> sint (mSize st) - sint (mPosition st)"
    using kv assms(2) ps by simp_all
  show "sint (mPosition st + k) = sint (mPosition st) + sint k"
    using k0 kle p0 smax by (intro sint_add_exact) linarith+
  have up: "unat (mPosition st) = nat (sint (mPosition st))"
    using p0 by (rule unat_nonneg)
  have uk: "unat k = nat (sint k)"
    using k0 by (rule unat_nonneg)
  have rd: "read_bytes (mBuffer st) (unat (mPosition st)) (unat k)
              = Some (take (nat (sint k)) (drop (nat (sint (mPosition st))) (mBuffer st)))"
    using up uk sl kle p0 k0 by (simp add: read_bytes_def)
  have nle: "\<not> n \<le>s 0" using assms(2) by (simp add: word_sle_eq)
  show "Read st n =
           Returned (k, take (nat (sint k)) (drop (nat (sint (mPosition st))) (mBuffer st)))
             (st\<lparr>mPosition := mPosition st + k\<rparr>)"
  proof (cases "k = 0")
    case True
    then have "Read st n = Returned (k, []) st"
      using nle by (simp add: Read_def k_def Let_def)
    then show ?thesis using True by simp
  next
    case False
    then show ?thesis
      using nle rd unfolding Read_def k_def [symmetric] Let_def by simp
  qed
qed

lemma Delete_nonpositive: "sint n \<le> 0 \<Longrightarrow> Delete st n = Returned 0 st"
  by (simp add: Delete_def word_sle_eq)

lemma Insert_nonpositive: "sint n \<le> 0 \<Longrightarrow> Insert st B n = Returned 0 st"
  by (simp add: Insert_def word_sle_eq)

lemma Read_nonpositive: "sint n \<le> 0 \<Longrightarrow> Read st n = Returned (0, []) st"
  by (simp add: Read_def word_sle_eq)

lemma Delete_returns:
  assumes "stream_inv st"
  shows "\<exists>d st1. Delete st r = Returned d st1 \<and> stream_inv st1 \<and>
           sint d = (if 0 < sint r then min (sint r) (sint (mSize st) - sint (mPosition st)) else 0) \<and>
           mBuffer st1 = take (nat (sint (mPosition st))) (mBuffer st)
                           @ drop (nat (sint (mPosition st)) + nat (sint d)) (mBuffer st) \<and>
           sint (mSize st1) = sint (mSize st) - sint d \<and>
           mPosition st1 = mPosition st"
proof (cases "0 < sint r")
  case False
  then have "Delete st r = Returned 0 st" by (simp add: Delete_nonpositive)
  then show ?thesis using assms False by simp
next
  case True
  define d where "d = (if r \<le>s mSize st - mPosition st then r else mSize st - mPosition st)"
  define st1 where "st1 = st\<lparr>mBuffer := take (nat (sint (mPosition st))) (mBuffer st)
                                       @ drop (nat (sint (mPosition st)) + nat (sint d)) (mBuffer st),
                           mSize := mSize st - d\<rparr>"
  have r: "Delete st r = Returned d st1"
    and sz: "sint (mSize st - d) = sint (mSize st) - sint d"
    using Delete_positive [OF assms True] by (simp_all add: d_def st1_def)
  have dv: "sint d = min (sint r) (sint (mSize st) - sint (mPosition st))"
    using clamp_remaining [OF assms True] by (simp add: d_def)
  have p0: "0 \<le> sint (mPosition st)" and ps: "sint (mPosition st) \<le> sint (mSize st)"
    and sl: "sint (mSize st) = int (length (mBuffer st))"
    using assms by (simp_all add: stream_inv_def)
  have d0: "0 \<le> sint d" and dle: "sint d \<le> sint (mSize st) - sint (mPosition st)"
    using dv True ps by simp_all
  have "stream_inv st1"
    using p0 ps sl d0 dle sz by (simp add: stream_inv_def st1_def min_def) linarith
  then show ?thesis using r dv sz True by (simp add: st1_def)
qed

lemma Read_returns:
  assumes "stream_inv st"
  shows "\<exists>k st'. Read st L =
             Returned (k, take (nat (sint k)) (drop (nat (sint (mPosition st))) (mBuffer st))) st' \<and>
           stream_inv st' \<and>
           sint k = (if sint L < 0 then 0 else min (sint L) (sint (mSize st) - sint (mPosition st))) \<and>
           st' = st\<lparr>mPosition := mPosition st + k\<rparr> \<and>
           sint (mPosition st') = sint (mPosition st) + sint k"
proof (cases "0 < sint L")
  case False
  then have "Read st L = Returned (0, []) st" by (simp add: Read_nonpositive)
  moreover have "sint (mPosition st) \<le> sint (mSize st)" using assms by (simp add: stream_inv_def)
  ultimately show ?thesis using assms False by (simp add: min_def)
next
  case True
  define k where "k = (if L \<le>s mSize st - mPosition st then L else mSize st - mPosition st)"
  have r: "Read st L = Returned (k, take (nat (sint k)) (drop (nat (sint (mPosition st))) (mBuffer st)))
             (st\<lparr>mPosition := mPosition st + k\<rparr>)"
    and ps: "sint (mPosition st + k) = sint (mPosition st) + sint k"
    using Read_positive [OF assms True] by (simp_all add: k_def)
  have kv: "sint k = min (sint L) (sint (mSize st) - sint (mPosition st))"
    using clamp_remaining [OF assms True] by (simp add: k_def)
  have "stream_inv (st\<lparr>mPosition := mPosition st + k\<rparr>)"
    using assms kv ps True by (simp add: stream_inv_def)
  then show ?thesis using r kv ps True by simp
qed

lemma Insert_cases:
  assumes "stream_inv st"
  shows "outcome_inv (Insert st B n)"
    and "sint n \<le> int (length B) \<Longrightarrow> Insert st B n \<noteq> Undefined"
proof -
  consider (np) "sint n \<le> 0"
    | (ov) "0 < sint n" "9223372036854775807 - sint (mSize st) < sint n"
    | (ok) "0 < sint n" "sint (mSize st) + sint n \<le> 9223372036854775807" "nat (sint n) \<le> length B"
    | (short) "0 < sint n" "sint (mSize st) + sint n \<le> 9223372036854775807" "\<not> nat (sint n) \<le> length B"
    by linarith
  then have "outcome_inv (Insert st B n) \<and> (sint n \<le> int (length B) \<longrightarrow> Insert st B n \<noteq> Undefined)"
  proof cases
    case np
    then show ?thesis using assms by (simp add: Insert_nonpositive outcome_inv_def)
  next
    case ov
    then have "int64_max - mSize st <s n" using overflow_test_exact [OF assms, of n] by simp
    moreover have "\<not> n \<le>s 0" using ov(1) by (simp add: word_sle_eq)
    ultimately show ?thesis using assms by (simp add: Insert_def outcome_inv_def)
  next
    case ok
    have p0: "0 \<le> sint (mPosition st)" and ps: "sint (mPosition st) \<le> sint (mSize st)"
      and sl: "sint (mSize st) = int (length (mBuffer st))"
      using assms by (simp_all add: stream_inv_def)
    note I = Insert_positive [OF assms ok]
    have "stream_inv (st\<lparr>mBuffer := take (nat (sint (mPosition st))) (mBuffer st)
                                       @ take (nat (sint n)) B
                                       @ drop (nat (sint (mPosition st))) (mBuffer st),
                           mSize := mSize st + n,
                           mPosition := mPosition st + n\<rparr>)"
      using I(2,3) p0 ps sl ok by (auto simp: stream_inv_def min_def)
    then show ?thesis using I(1) by (simp add: outcome_inv_def)
  next
    case short
    have "\<not> n \<le>s 0" using short(1) by (simp add: word_sle_eq)
    moreover have "\<not> int64_max - mSize st <s n"
      using overflow_test_exact [OF assms, of n] short(2) by simp
    moreover have "unat n = nat (sint n)" using short(1) by (intro unat_nonneg) simp
    then have "read_bytes B 0 (unat n) = None" using short(3) by (simp add: read_bytes_def)
    ultimately have "Insert st B n = Undefined" by (simp add: Insert_def)
    moreover have "\<not> sint n \<le> int (length B)" using short(1,3) by linarith
    ultimately show ?thesis by (simp add: outcome_inv_def)
  qed
  then show "outcome_inv (Insert st B n)"
    and "sint n \<le> int (length B) \<Longrightarrow> Insert st B n \<noteq> Undefined" by simp_all
qed

lemma Update_cases:
  assumes "stream_inv st"
  shows "outcome_inv (Update st B n r)"
    and "sint n \<le> int (length B) \<Longrightarrow> Update st B n r \<noteq> Undefined"
proof -
  obtain d st1 where D: "Delete st r = Returned d st1" and i1: "stream_inv st1"
    using Delete_returns [OF assms, of r] by blast
  have U: "Update st B n r = Insert st1 B n" using D by (simp add: Update_def)
  show "outcome_inv (Update st B n r)" using U Insert_cases(1) [OF i1] by simp
  show "sint n \<le> int (length B) \<Longrightarrow> Update st B n r \<noteq> Undefined"
    using U Insert_cases(2) [OF i1] by simp
qed

lemma Seek_cases:
  shows "sint p < 0 \<Longrightarrow> Seek st p = Thrown (runtime_error ''Position must not be less than zero.'') st"
    and "0 \<le> sint p \<Longrightarrow> sint (mSize st) < sint p \<Longrightarrow>
           Seek st p = Thrown (runtime_error ''Position must not be larger than size.'') st"
    and "0 \<le> sint p \<Longrightarrow> sint p \<le> sint (mSize st) \<Longrightarrow> Seek st p = Returned () (st\<lparr>mPosition := p\<rparr>)"
  by (simp_all add: Seek_def word_sless_alt)

lemma Seek_inv:
  assumes "stream_inv st"
  shows "outcome_inv (Seek st p)"
proof -
  consider "sint p < 0" | "0 \<le> sint p" "sint (mSize st) < sint p" | "0 \<le> sint p" "sint p \<le> sint (mSize st)"
    by linarith
  then show ?thesis
    using assms by cases (simp_all add: Seek_cases outcome_inv_def, simp add: stream_inv_def)
qed

lemma new_stream_inv:
  assumes "length buffer \<le> 9223372036854775807"
  shows "stream_inv (new_EditableStreamOverBuffer buffer)"
    and "sint (mSize (new_EditableStreamOverBuffer buffer)) = int (length buffer)"
    and "mPosition (new_EditableStreamOverBuffer buffer) = 0"
proof -
  have "length buffer < 2 ^ 63" using assms by simp
  then show "sint (mSize (new_EditableStreamOverBuffer buffer)) = int (length buffer)"
    by (simp add: new_EditableStreamOverBuffer_def sint_of_nat_length)
  then show "stream_inv (new_EditableStreamOverBuffer buffer)"
    by (simp add: stream_inv_def new_EditableStreamOverBuffer_def)
  show "mPosition (new_EditableStreamOverBuffer buffer) = 0"
    by (simp add: new_EditableStreamOverBuffer_def)
qed

lemma Read_inv:
  assumes "stream_inv st"
  shows "outcome_inv (Read st L)" and "Read st L \<noteq> Undefined"
proof -
  obtain k bs st' where "Read st L = Returned (k, bs) st'" and "stream_inv st'"
    using Read_returns [OF assms, of L] by blast
  then show "outcome_inv (Read st L)" and "Read st L \<noteq> Undefined"
    by (simp_all add: outcome_inv_def)
qed

lemma Delete_inv:
  assumes "stream_inv st"
  shows "outcome_inv (Delete st r)" and "Delete st r \<noteq> Undefined"
proof -
  obtain d st' where "Delete st r = Returned d st'" and "stream_inv st'"
    using Delete_returns [OF assms, of r] by blast
  then show "outcome_inv (Delete st r)" and "Delete st r \<noteq> Undefined"
    by (simp_all add: outcome_inv_def)
qed

lemma Seek_defined: "Seek st p \<noteq> Undefined"
  by (simp add: Seek_def)

section \<open>The claims of the specification\<close>

text \<open>
  In the theorems below a client's stream is a state with \<open>stream_inv\<close>; the bytes the
  caller passes are a list \<open>B\<close>, and a length \<open>n\<close>, a position and a size are read as
  the signed value \<open>sint\<close> of the 64-bit word.
\<close>

subsection \<open>Update, Write\<close>

text \<open>
  Claim C1. For every stream and all arguments \<open>B\<close>, \<open>n\<close>, \<open>r\<close>, the call
  \<open>Update(B, n, r)\<close> has the outcome of \<open>Delete(r)\<close> followed at once by
  \<open>Insert(B, n)\<close> on the same stream: the same buffer content, size and position, whether
  or not \<open>n\<close> and \<open>r\<close> differ, and the value it returns is the one that \<open>Insert\<close>
  returns.
\<close>

theorem Update_is_Delete_then_Insert:
  "Update st B n r = Delete_then_Insert st B n r \<and>
   (stream_inv st \<longrightarrow>
      (\<exists>d st1. Delete st r = Returned d st1 \<and> stream_inv st1 \<and>
                Update st B n r = Insert st1 B n))"
proof -
  have "Update st B n r = Delete_then_Insert st B n r"
    by (simp add: Update_def Delete_then_Insert_def then_call_def)
  moreover have "\<exists>d st1. Delete st r = Returned d st1 \<and> stream_inv st1 \<and>
                   Update st B n r = Insert st1 B n" if i: "stream_inv st"
  proof -
    obtain d st1 where D: "Delete st r = Returned d st1" and i1: "stream_inv st1"
      using Delete_returns [OF i, of r] by blast
    have "Update st B n r = Insert st1 B n" using D by (simp add: Update_def)
    with D i1 show ?thesis by blast
  qed
  ultimately show ?thesis by blast
qed

text \<open>
  The scenario of the specification, with \<open>n = 1\<close> and \<open>r = 2\<close>: \<open>Update\<close> of
  \<open>01 02 03 04 05\<close> at position 0 with the one byte \<open>FF\<close> gives \<open>FF 03 04 05\<close>,
  size 4, position 1, by way of \<open>03 04 05\<close>.
\<close>

theorem Update_is_Delete_then_Insert_witness:
  "stream_inv \<lparr>mBuffer = [1, 2, 3, 4, 5], mSize = 5, mPosition = 0\<rparr> \<and>
   Delete \<lparr>mBuffer = [1, 2, 3, 4, 5], mSize = 5, mPosition = 0\<rparr> 2
     = Returned 2 \<lparr>mBuffer = [3, 4, 5], mSize = 3, mPosition = 0\<rparr> \<and>
   Insert \<lparr>mBuffer = [3, 4, 5], mSize = 3, mPosition = 0\<rparr> [0xFF] 1
     = Returned 1 \<lparr>mBuffer = [0xFF, 3, 4, 5], mSize = 4, mPosition = 1\<rparr> \<and>
   Delete_then_Insert \<lparr>mBuffer = [1, 2, 3, 4, 5], mSize = 5, mPosition = 0\<rparr> [0xFF] 1 2
     = Returned 1 \<lparr>mBuffer = [0xFF, 3, 4, 5], mSize = 4, mPosition = 1\<rparr> \<and>
   Update \<lparr>mBuffer = [1, 2, 3, 4, 5], mSize = 5, mPosition = 0\<rparr> [0xFF] 1 2
     = Returned 1 \<lparr>mBuffer = [0xFF, 3, 4, 5], mSize = 4, mPosition = 1\<rparr>"
proof -
  let ?st = "\<lparr>mBuffer = [1, 2, 3, 4, 5 :: uint8_t], mSize = 5, mPosition = 0\<rparr>"
  let ?st1 = "\<lparr>mBuffer = [3, 4, 5 :: uint8_t], mSize = 3, mPosition = 0\<rparr>"
  let ?st2 = "\<lparr>mBuffer = [0xFF, 3, 4, 5 :: uint8_t], mSize = 4, mPosition = 1\<rparr>"
  have h: "stream_inv ?st" by (simp add: stream_inv_def)
  have D: "Delete ?st 2 = Returned 2 ?st1"
    by (simp add: Delete_def vector_erase_def word_sle_eq)
  have I: "Insert ?st1 [0xFF] 1 = Returned 1 ?st2"
    by (simp add: Insert_def vector_insert_def read_bytes_def word_sle_eq word_sless_alt
        int64_max_def)
  note a = Update_is_Delete_then_Insert [where st = ?st and B = "[0xFF]" and n = 1 and r = 2]
  from a h obtain d st1 where "Delete ?st 2 = Returned d st1"
    and "Update ?st [0xFF] 1 2 = Insert st1 [0xFF] 1"
    by blast
  with D I have U: "Update ?st [0xFF] 1 2 = Returned 1 ?st2" by simp
  then have "Delete_then_Insert ?st [0xFF] 1 2 = Returned 1 ?st2" using a by simp
  with h D I U show ?thesis by simp
qed

text \<open>
  Claim C5. For every stream, every byte sequence \<open>B\<close> and every length \<open>n\<close>, the
  call \<open>Write(B, n)\<close> has the outcome of \<open>Update(B, n, n)\<close>: the same buffer content,
  size, position and returned value.
\<close>

theorem Write_is_Update_same_length:
  "Write st B n = Update st B n n"
  by (simp add: Write_def)

subsection \<open>Insert\<close>

text \<open>
  Claim C2. On a stream with position \<open>p\<close> and size \<open>s\<close>, for \<open>n > 0\<close> with
  \<open>s + n\<close> not above the largest signed 64-bit value, \<open>Insert(B, n)\<close> puts the \<open>n\<close>
  bytes of \<open>B\<close> into the buffer at offset \<open>p\<close>, in front of what was at and after
  \<open>p\<close>; the size grows by exactly \<open>n\<close>, the position becomes \<open>p + n\<close>, and \<open>n\<close>
  is returned.
\<close>

theorem Insert_splices:
  assumes "stream_inv st" and "0 < sint n"
    and "sint (mSize st) + sint n \<le> 9223372036854775807"
    and "nat (sint n) \<le> length B"
  shows "\<exists>st'. Insert st B n = Returned n st' \<and>
           mBuffer st' = take (nat (sint (mPosition st))) (mBuffer st)
                           @ take (nat (sint n)) B
                           @ drop (nat (sint (mPosition st))) (mBuffer st) \<and>
           sint (mSize st') = sint (mSize st) + sint n \<and>
           sint (mPosition st') = sint (mPosition st) + sint n"
  using Insert_positive [OF assms] by simp

text \<open>
  The scenario of the specification: after four bytes of \<open>01 02 03 04 05\<close> have been
  read, inserting \<open>AA BB\<close> gives \<open>01 02 03 04 AA BB 05\<close>, size 7, position 6.
\<close>

theorem Insert_splices_witness:
  "stream_inv \<lparr>mBuffer = [1, 2, 3, 4, 5], mSize = 5, mPosition = 4\<rparr> \<and>
   0 < sint (2 :: int64_t) \<and>
   sint (5 :: int64_t) + sint (2 :: int64_t) \<le> 9223372036854775807 \<and>
   nat (sint (2 :: int64_t)) \<le> length [0xAA, 0xBB :: uint8_t] \<and>
   Insert \<lparr>mBuffer = [1, 2, 3, 4, 5], mSize = 5, mPosition = 4\<rparr> [0xAA, 0xBB] 2
     = Returned 2 \<lparr>mBuffer = [1, 2, 3, 4, 0xAA, 0xBB, 5], mSize = 7, mPosition = 6\<rparr>"
proof -
  let ?st = "\<lparr>mBuffer = [1, 2, 3, 4, 5 :: uint8_t], mSize = 5, mPosition = 4\<rparr>"
  have h1: "stream_inv ?st" by (simp add: stream_inv_def)
  have h2: "0 < sint (2 :: int64_t)" by simp
  have h3: "sint (mSize ?st) + sint (2 :: int64_t) \<le> 9223372036854775807" by simp
  have h4: "nat (sint (2 :: int64_t)) \<le> length [0xAA, 0xBB :: uint8_t]" by simp
  from Insert_splices [OF h1 h2 h3 h4]
  obtain st' where r: "Insert ?st [0xAA, 0xBB] 2 = Returned 2 st'"
    and b: "mBuffer st' = take (nat (sint (mPosition ?st))) (mBuffer ?st)
                           @ take (nat (sint (2 :: int64_t))) [0xAA, 0xBB]
                           @ drop (nat (sint (mPosition ?st))) (mBuffer ?st)"
    and s: "sint (mSize st') = sint (mSize ?st) + sint (2 :: int64_t)"
    and p: "sint (mPosition st') = sint (mPosition ?st) + sint (2 :: int64_t)"
    by blast
  have "mBuffer st' = [1, 2, 3, 4, 0xAA, 0xBB, 5]" using b by simp
  moreover have "mSize st' = 7"
    using s word_eq_iff_signed [of "mSize st'" "7 :: int64_t", where ?'a = int] by simp
  moreover have "mPosition st' = 6"
    using p word_eq_iff_signed [of "mPosition st'" "6 :: int64_t", where ?'a = int] by simp
  ultimately have "st' = \<lparr>mBuffer = [1, 2, 3, 4, 0xAA, 0xBB, 5], mSize = 7, mPosition = 6\<rparr>"
    by simp
  with r h1 h2 h3 h4 show ?thesis by simp
qed

text \<open>
  Claim C8. \<open>Insert(B, n)\<close> with \<open>n > 0\<close> leaves by the overflow exception (a raised
  error, not a returned value) exactly when the size \<open>s\<close> has
  \<open>max - s < n\<close> for the largest signed 64-bit value \<open>max\<close>, that is, exactly when
  \<open>s + n\<close> would be above \<open>max\<close>; for every smaller \<open>n\<close> it does not raise.
\<close>

theorem Insert_overflow:
  assumes "stream_inv st" and "0 < sint n"
  shows "((\<exists>e st'. Insert st B n = Thrown e st') \<longleftrightarrow>
            9223372036854775807 - sint (mSize st) < sint n) \<and>
         (9223372036854775807 - sint (mSize st) < sint n \<longleftrightarrow>
            9223372036854775807 < sint (mSize st) + sint n) \<and>
         (9223372036854775807 < sint (mSize st) + sint n \<longrightarrow>
            Insert st B n =
              Thrown (runtime_error ''Inserting buffer would exceed maximum stream length.'') st) \<and>
         (sint (mSize st) + sint n \<le> 9223372036854775807 \<and> nat (sint n) \<le> length B \<longrightarrow>
            (\<exists>st'. Insert st B n = Returned n st'))"
proof -
  have nle: "\<not> n \<le>s 0" using assms(2) by (simp add: word_sle_eq)
  show ?thesis
  proof (cases "9223372036854775807 - sint (mSize st) < sint n")
    case True
    then have "int64_max - mSize st <s n"
      using overflow_test_exact [OF assms(1), of n] by simp
    then have "Insert st B n =
        Thrown (runtime_error ''Inserting buffer would exceed maximum stream length.'') st"
      using nle by (simp add: Insert_def)
    then show ?thesis using True by simp
  next
    case False
    then have "\<not> int64_max - mSize st <s n"
      using overflow_test_exact [OF assms(1), of n] by simp
    then have "\<forall>e st'. Insert st B n \<noteq> Thrown e st'"
      using nle by (simp add: Insert_def split: option.splits)
    moreover have "nat (sint n) \<le> length B \<longrightarrow> (\<exists>st'. Insert st B n = Returned n st')"
      using Insert_positive(1) [OF assms, of B] False by simp
    ultimately show ?thesis using False by simp
  qed
qed

text \<open>
  A stream of three bytes: \<open>n = max - 2\<close> raises, the largest admissible
  \<open>n = max - 3\<close> does not, and neither does \<open>n = 2\<close>.
\<close>

theorem Insert_overflow_witness:
  "stream_inv \<lparr>mBuffer = [1, 2, 3], mSize = 3, mPosition = 1\<rparr> \<and>
   0 < sint (9223372036854775805 :: int64_t) \<and>
   9223372036854775807 < sint (3 :: int64_t) + sint (9223372036854775805 :: int64_t) \<and>
   Insert \<lparr>mBuffer = [1, 2, 3], mSize = 3, mPosition = 1\<rparr> [] 9223372036854775805
     = Thrown (runtime_error ''Inserting buffer would exceed maximum stream length.'')
         \<lparr>mBuffer = [1, 2, 3], mSize = 3, mPosition = 1\<rparr> \<and>
   0 < sint (9223372036854775804 :: int64_t) \<and>
   sint (3 :: int64_t) + sint (9223372036854775804 :: int64_t) \<le> 9223372036854775807 \<and>
   Insert \<lparr>mBuffer = [1, 2, 3], mSize = 3, mPosition = 1\<rparr> [] 9223372036854775804
     \<noteq> Thrown (runtime_error ''Inserting buffer would exceed maximum stream length.'')
         \<lparr>mBuffer = [1, 2, 3], mSize = 3, mPosition = 1\<rparr> \<and>
   0 < sint (2 :: int64_t) \<and>
   sint (3 :: int64_t) + sint (2 :: int64_t) \<le> 9223372036854775807 \<and>
   nat (sint (2 :: int64_t)) \<le> length [0xAA, 0xBB :: uint8_t] \<and>
   Insert \<lparr>mBuffer = [1, 2, 3], mSize = 3, mPosition = 1\<rparr> [0xAA, 0xBB] 2
     = Returned 2 \<lparr>mBuffer = [1, 0xAA, 0xBB, 2, 3], mSize = 5, mPosition = 3\<rparr>"
proof -
  let ?st = "\<lparr>mBuffer = [1, 2, 3 :: uint8_t], mSize = 3, mPosition = 1\<rparr>"
  have h1: "stream_inv ?st" by (simp add: stream_inv_def)
  have h2: "0 < sint (9223372036854775805 :: int64_t)" by simp
  have h3: "0 < sint (9223372036854775804 :: int64_t)" by simp
  have h4: "0 < sint (2 :: int64_t)" by simp
  have r: "Insert ?st [0xAA, 0xBB] 2
             = Returned 2 \<lparr>mBuffer = [1, 0xAA, 0xBB, 2, 3], mSize = 5, mPosition = 3\<rparr>"
    by (simp add: Insert_def vector_insert_def read_bytes_def word_sle_eq word_sless_alt
        int64_max_def)
  show ?thesis
    using h1 h2 h3 h4 r
      Insert_overflow [OF h1 h2, of "[]"]
      Insert_overflow [OF h1 h3, of "[]"]
    by simp
qed

subsection \<open>Delete\<close>

text \<open>
  Claim C3. On a stream with position \<open>p\<close> and size \<open>s\<close>, for every \<open>n > 0\<close>,
  \<open>Delete(n)\<close> removes exactly \<open>min(n, s - p)\<close> bytes starting at offset \<open>p\<close>, the
  size shrinks by that amount, that amount is returned, and the position stays \<open>p\<close>.
\<close>

theorem Delete_removes:
  assumes "stream_inv st" and "0 < sint n"
  shows "\<exists>d st'. Delete st n = Returned d st' \<and>
           sint d = min (sint n) (sint (mSize st) - sint (mPosition st)) \<and>
           mBuffer st' = take (nat (sint (mPosition st))) (mBuffer st)
                           @ drop (nat (sint (mPosition st)) + nat (sint d)) (mBuffer st) \<and>
           sint (mSize st') = sint (mSize st) - sint d \<and>
           mPosition st' = mPosition st"
  using Delete_returns [OF assms(1), of n] assms(2) by auto

text \<open>
  The scenario of the specification: \<open>Delete(2)\<close> at position 0 of \<open>01 02 03 04 05\<close>
  leaves \<open>03 04 05\<close>, size 3, position 0.
\<close>

theorem Delete_removes_witness:
  "stream_inv \<lparr>mBuffer = [1, 2, 3, 4, 5], mSize = 5, mPosition = 0\<rparr> \<and>
   0 < sint (2 :: int64_t) \<and>
   Delete \<lparr>mBuffer = [1, 2, 3, 4, 5], mSize = 5, mPosition = 0\<rparr> 2
     = Returned 2 \<lparr>mBuffer = [3, 4, 5], mSize = 3, mPosition = 0\<rparr>"
proof -
  let ?st = "\<lparr>mBuffer = [1, 2, 3, 4, 5 :: uint8_t], mSize = 5, mPosition = 0\<rparr>"
  have h1: "stream_inv ?st" by (simp add: stream_inv_def)
  have h2: "0 < sint (2 :: int64_t)" by simp
  from Delete_removes [OF h1 h2]
  obtain d st' where r: "Delete ?st 2 = Returned d st'"
    and d: "sint d = min (sint (2 :: int64_t)) (sint (mSize ?st) - sint (mPosition ?st))"
    and b: "mBuffer st' = take (nat (sint (mPosition ?st))) (mBuffer ?st)
                           @ drop (nat (sint (mPosition ?st)) + nat (sint d)) (mBuffer ?st)"
    and s: "sint (mSize st') = sint (mSize ?st) - sint d"
    and p: "mPosition st' = mPosition ?st"
    by blast
  have d2: "sint d = 2" using d by simp
  then have "d = 2"
    using word_eq_iff_signed [of d "2 :: int64_t", where ?'a = int] by simp
  moreover have "mBuffer st' = [3, 4, 5]" using b d2 by simp
  moreover have "mSize st' = 3"
    using s d2 word_eq_iff_signed [of "mSize st'" "3 :: int64_t", where ?'a = int] by simp
  moreover have "mPosition st' = 0" using p by simp
  ultimately have "d = 2 \<and> st' = \<lparr>mBuffer = [3, 4, 5], mSize = 3, mPosition = 0\<rparr>"
    by simp
  with r h1 h2 show ?thesis by simp
qed

subsection \<open>Read\<close>

text \<open>
  Claim C4. On a stream with position \<open>p\<close> and size \<open>s\<close>, for every length \<open>L\<close>,
  \<open>Read(buffer, L)\<close> copies exactly \<open>min(L, s - p)\<close> bytes of the internal buffer,
  starting at offset \<open>p\<close>, into the caller's buffer, moves the position forward by that
  count and returns it; it returns 0 and changes nothing when \<open>L \<le> 0\<close> or when the
  cursor is at the end, and it never changes the internal buffer or the size. (A
  negative \<open>L\<close> falls under the second part: nothing is copied and 0 is returned.)
\<close>

theorem Read_copies:
  assumes "stream_inv st"
  shows "\<exists>k st'. Read st L =
             Returned (k, take (nat (sint k)) (drop (nat (sint (mPosition st))) (mBuffer st))) st' \<and>
           sint k = (if sint L < 0 then 0 else min (sint L) (sint (mSize st) - sint (mPosition st))) \<and>
           mBuffer st' = mBuffer st \<and> mSize st' = mSize st \<and>
           sint (mPosition st') = sint (mPosition st) + sint k \<and>
           (sint L \<le> 0 \<or> mPosition st = mSize st \<longrightarrow> k = 0 \<and> st' = st)"
proof -
  obtain k st' where r: "Read st L =
             Returned (k, take (nat (sint k)) (drop (nat (sint (mPosition st))) (mBuffer st))) st'"
    and k: "sint k = (if sint L < 0 then 0 else min (sint L) (sint (mSize st) - sint (mPosition st)))"
    and st': "st' = st\<lparr>mPosition := mPosition st + k\<rparr>"
    and p: "sint (mPosition st') = sint (mPosition st) + sint k"
    using Read_returns [OF assms, of L] by blast
  have "k = 0" if "sint L \<le> 0 \<or> mPosition st = mSize st"
  proof -
    have "sint (mPosition st) \<le> sint (mSize st)" using assms by (simp add: stream_inv_def)
    then have "sint k = 0" using that k by (auto simp: min_def)
    then show ?thesis by (simp add: sint_eq_zero)
  qed
  then have "sint L \<le> 0 \<or> mPosition st = mSize st \<longrightarrow> k = 0 \<and> st' = st"
    using st' by simp
  then show ?thesis using r k st' p by simp
qed

text \<open>
  Reading four bytes of \<open>01 02 03 04 05\<close> from position 0, as in the specification, and
  reading with a negative length.
\<close>

theorem Read_copies_witness:
  "stream_inv \<lparr>mBuffer = [1, 2, 3, 4, 5], mSize = 5, mPosition = 0\<rparr> \<and>
   Read \<lparr>mBuffer = [1, 2, 3, 4, 5], mSize = 5, mPosition = 0\<rparr> 4
     = Returned (4, [1, 2, 3, 4]) \<lparr>mBuffer = [1, 2, 3, 4, 5], mSize = 5, mPosition = 4\<rparr> \<and>
   sint (- 1 :: int64_t) \<le> 0 \<and>
   Read \<lparr>mBuffer = [1, 2, 3, 4, 5], mSize = 5, mPosition = 0\<rparr> (- 1)
     = Returned (0, []) \<lparr>mBuffer = [1, 2, 3, 4, 5], mSize = 5, mPosition = 0\<rparr>"
proof -
  let ?st = "\<lparr>mBuffer = [1, 2, 3, 4, 5 :: uint8_t], mSize = 5, mPosition = 0\<rparr>"
  have h1: "stream_inv ?st" by (simp add: stream_inv_def)
  from Read_copies [OF h1, of 4]
  obtain k st' where r: "Read ?st 4 =
        Returned (k, take (nat (sint k)) (drop (nat (sint (mPosition ?st))) (mBuffer ?st))) st'"
    and k: "sint k = (if sint (4 :: int64_t) < 0 then 0
                      else min (sint (4 :: int64_t)) (sint (mSize ?st) - sint (mPosition ?st)))"
    and b: "mBuffer st' = mBuffer ?st" and s: "mSize st' = mSize ?st"
    and p: "sint (mPosition st') = sint (mPosition ?st) + sint k"
    by blast
  have k4: "sint k = 4" using k by simp
  then have "k = 4"
    using word_eq_iff_signed [of k "4 :: int64_t", where ?'a = int] by simp
  moreover have "mPosition st' = 4"
    using p k4 word_eq_iff_signed [of "mPosition st'" "4 :: int64_t", where ?'a = int] by simp
  then have "st' = \<lparr>mBuffer = [1, 2, 3, 4, 5], mSize = 5, mPosition = 4\<rparr>"
    using b s by simp
  ultimately have a: "Read ?st 4 = Returned (4, [1, 2, 3, 4]) \<lparr>mBuffer = [1, 2, 3, 4, 5], mSize = 5, mPosition = 4\<rparr>"
    using r k4 by simp
  have h2: "sint (- 1 :: int64_t) \<le> 0" by simp
  from Read_copies [OF h1, of "- 1"]
  obtain k' st'' where r': "Read ?st (- 1) =
        Returned (k', take (nat (sint k')) (drop (nat (sint (mPosition ?st))) (mBuffer ?st))) st''"
    and z: "sint (- 1 :: int64_t) \<le> 0 \<or> mPosition ?st = mSize ?st \<longrightarrow> k' = 0 \<and> st'' = ?st"
    by blast
  have "k' = 0 \<and> st'' = ?st" using z h2 by blast
  then have c: "Read ?st (- 1) = Returned (0, []) ?st" using r' by simp
  show ?thesis using h1 a h2 c by simp
qed

subsection \<open>Seek\<close>

text \<open>
  Claim C6. \<open>Seek(p)\<close> raises its error (a \<open>std::runtime_error\<close> whose message names the
  bad argument) exactly when \<open>p < 0\<close> or \<open>p > size\<close>, so for \<open>Seek(-1)\<close> and
  \<open>Seek(size + 1)\<close>, and then the stream is unchanged; for every \<open>p\<close> from 0 to the
  size, both included, it succeeds, sets the cursor to \<open>p\<close> without touching buffer or
  size, and \<open>Position()\<close> then returns \<open>p\<close>.
\<close>

theorem Seek_range:
  "((\<exists>e st'. Seek st p = Thrown e st') \<longleftrightarrow> sint p < 0 \<or> sint (mSize st) < sint p) \<and>
   (sint p < 0 \<longrightarrow>
      Seek st p = Thrown (runtime_error ''Position must not be less than zero.'') st) \<and>
   (0 \<le> sint p \<and> sint (mSize st) < sint p \<longrightarrow>
      Seek st p = Thrown (runtime_error ''Position must not be larger than size.'') st) \<and>
   (0 \<le> sint p \<and> sint p \<le> sint (mSize st) \<longrightarrow>
      Seek st p = Returned () (st\<lparr>mPosition := p\<rparr>) \<and>
      Position (st\<lparr>mPosition := p\<rparr>) = Returned p (st\<lparr>mPosition := p\<rparr>))"
proof -
  consider (neg) "sint p < 0" | (big) "0 \<le> sint p" "sint (mSize st) < sint p"
    | (ok) "0 \<le> sint p" "sint p \<le> sint (mSize st)"
    by linarith
  then show ?thesis
  proof cases
    case neg
    then show ?thesis using Seek_cases(1) [OF neg] by simp
  next
    case big
    then show ?thesis using Seek_cases(2) [OF big] by simp
  next
    case ok
    then show ?thesis using Seek_cases(3) [OF ok] by (simp add: Position_def)
  qed
qed

text \<open>On a stream of five bytes: \<open>Seek(-1)\<close>, \<open>Seek(6)\<close>, \<open>Seek(5)\<close> and \<open>Seek(0)\<close>.\<close>

theorem Seek_range_witness:
  "sint (- 1 :: int64_t) < 0 \<and>
   Seek \<lparr>mBuffer = [1, 2, 3, 4, 5], mSize = 5, mPosition = 2\<rparr> (- 1)
     = Thrown (runtime_error ''Position must not be less than zero.'')
         \<lparr>mBuffer = [1, 2, 3, 4, 5], mSize = 5, mPosition = 2\<rparr> \<and>
   0 \<le> sint (6 :: int64_t) \<and> sint (5 :: int64_t) < sint (6 :: int64_t) \<and>
   Seek \<lparr>mBuffer = [1, 2, 3, 4, 5], mSize = 5, mPosition = 2\<rparr> 6
     = Thrown (runtime_error ''Position must not be larger than size.'')
         \<lparr>mBuffer = [1, 2, 3, 4, 5], mSize = 5, mPosition = 2\<rparr> \<and>
   0 \<le> sint (5 :: int64_t) \<and> sint (5 :: int64_t) \<le> sint (5 :: int64_t) \<and>
   Seek \<lparr>mBuffer = [1, 2, 3, 4, 5], mSize = 5, mPosition = 2\<rparr> 5
     = Returned () \<lparr>mBuffer = [1, 2, 3, 4, 5], mSize = 5, mPosition = 5\<rparr> \<and>
   Position \<lparr>mBuffer = [1, 2, 3, 4, 5], mSize = 5, mPosition = 5\<rparr>
     = Returned 5 \<lparr>mBuffer = [1, 2, 3, 4, 5], mSize = 5, mPosition = 5\<rparr> \<and>
   Seek \<lparr>mBuffer = [1, 2, 3, 4, 5], mSize = 5, mPosition = 2\<rparr> 0
     = Returned () \<lparr>mBuffer = [1, 2, 3, 4, 5], mSize = 5, mPosition = 0\<rparr>"
  using Seek_range [where p = "- 1" and st = "\<lparr>mBuffer = [1, 2, 3, 4, 5], mSize = 5, mPosition = 2\<rparr>"]
        Seek_range [where p = 6 and st = "\<lparr>mBuffer = [1, 2, 3, 4, 5], mSize = 5, mPosition = 2\<rparr>"]
        Seek_range [where p = 5 and st = "\<lparr>mBuffer = [1, 2, 3, 4, 5], mSize = 5, mPosition = 2\<rparr>"]
        Seek_range [where p = 0 and st = "\<lparr>mBuffer = [1, 2, 3, 4, 5], mSize = 5, mPosition = 2\<rparr>"]
  by simp

subsection \<open>Non-positive lengths\<close>

text \<open>
  Claim C7, as the specification has it: every edit operation that gets a non-positive
  length returns 0, raises nothing and leaves buffer, size and position as they were,
  and this holds for \<open>Update(B, n, r)\<close> whenever \<open>n\<close> is non-positive, whatever \<open>r\<close>
  is. The last part is not what \<open>Update\<close> does: it calls \<open>Delete(r)\<close> before it looks at
  \<open>n\<close>. With \<open>n = 0\<close> and \<open>r = 2\<close> on \<open>01 02 03 04 05\<close> the first two bytes are gone.
\<close>

theorem Update_nonpositive_counterexample:
  "sint (0 :: int64_t) \<le> 0 \<and>
   Update \<lparr>mBuffer = [1, 2, 3, 4, 5], mSize = 5, mPosition = 0\<rparr> [] 0 2
     = Returned 0 \<lparr>mBuffer = [3, 4, 5], mSize = 3, mPosition = 0\<rparr> \<and>
   Update \<lparr>mBuffer = [1, 2, 3, 4, 5], mSize = 5, mPosition = 0\<rparr> [] 0 2
     \<noteq> Returned 0 \<lparr>mBuffer = [1, 2, 3, 4, 5], mSize = 5, mPosition = 0\<rparr>"
  by (simp add: Update_def Delete_def Insert_def vector_erase_def word_sle_eq)

text \<open>
  Claim C7, amended. \<open>Read\<close>, \<open>Write\<close>, \<open>Insert\<close> and \<open>Delete\<close> with a non-positive
  length return 0, raise nothing and leave the stream as it was. \<open>Update(B, n, r)\<close>
  with a non-positive \<open>n\<close> returns 0 and raises nothing as well; it leaves the stream
  as it was when \<open>r\<close> is non-positive too, and otherwise leaves it as \<open>Delete(r)\<close>
  does.
\<close>

theorem nonpositive_length_no_op:
  assumes "sint n \<le> 0"
  shows "Read st n = Returned (0, []) st \<and>
         Write st B n = Returned 0 st \<and>
         Insert st B n = Returned 0 st \<and>
         Delete st n = Returned 0 st \<and>
         (sint r \<le> 0 \<longrightarrow> Update st B n r = Returned 0 st) \<and>
         (stream_inv st \<longrightarrow>
            (\<exists>d st1. Delete st r = Returned d st1 \<and> Update st B n r = Returned 0 st1))"
proof -
  have U: "Update st B n r' = Returned 0 st1" if "Delete st r' = Returned d st1" for r' d st1
    using that assms by (simp add: Update_def Insert_nonpositive)
  have "Write st B n = Returned 0 st"
    using U [of n 0 st] assms by (simp add: Write_def Delete_nonpositive)
  moreover have "sint r \<le> 0 \<longrightarrow> Update st B n r = Returned 0 st"
    using U [of r 0 st] by (simp add: Delete_nonpositive)
  moreover have "stream_inv st \<longrightarrow>
            (\<exists>d st1. Delete st r = Returned d st1 \<and> Update st B n r = Returned 0 st1)"
    using Delete_returns [of st r] U by blast
  ultimately show ?thesis
    using assms by (simp add: Read_nonpositive Insert_nonpositive Delete_nonpositive)
qed

theorem nonpositive_length_no_op_witness:
  "sint (0 :: int64_t) \<le> 0 \<and>
   Read \<lparr>mBuffer = [1, 2, 3, 4, 5], mSize = 5, mPosition = 0\<rparr> 0
     = Returned (0, []) \<lparr>mBuffer = [1, 2, 3, 4, 5], mSize = 5, mPosition = 0\<rparr> \<and>
   Write \<lparr>mBuffer = [1, 2, 3, 4, 5], mSize = 5, mPosition = 0\<rparr> [] 0
     = Returned 0 \<lparr>mBuffer = [1, 2, 3, 4, 5], mSize = 5, mPosition = 0\<rparr> \<and>
   Insert \<lparr>mBuffer = [1, 2, 3, 4, 5], mSize = 5, mPosition = 0\<rparr> [] 0
     = Returned 0 \<lparr>mBuffer = [1, 2, 3, 4, 5], mSize = 5, mPosition = 0\<rparr> \<and>
   Delete \<lparr>mBuffer = [1, 2, 3, 4, 5], mSize = 5, mPosition = 0\<rparr> 0
     = Returned 0 \<lparr>mBuffer = [1, 2, 3, 4, 5], mSize = 5, mPosition = 0\<rparr> \<and>
   sint (- 3 :: int64_t) \<le> 0 \<and>
   Update \<lparr>mBuffer = [1, 2, 3, 4, 5], mSize = 5, mPosition = 0\<rparr> [] 0 (- 3)
     = Returned 0 \<lparr>mBuffer = [1, 2, 3, 4, 5], mSize = 5, mPosition = 0\<rparr> \<and>
   stream_inv \<lparr>mBuffer = [1, 2, 3, 4, 5], mSize = 5, mPosition = 0\<rparr> \<and>
   Delete \<lparr>mBuffer = [1, 2, 3, 4, 5], mSize = 5, mPosition = 0\<rparr> 2
     = Returned 2 \<lparr>mBuffer = [3, 4, 5], mSize = 3, mPosition = 0\<rparr> \<and>
   Update \<lparr>mBuffer = [1, 2, 3, 4, 5], mSize = 5, mPosition = 0\<rparr> [] 0 2
     = Returned 0 \<lparr>mBuffer = [3, 4, 5], mSize = 3, mPosition = 0\<rparr>"
proof -
  let ?st = "\<lparr>mBuffer = [1, 2, 3, 4, 5 :: uint8_t], mSize = 5, mPosition = 0\<rparr>"
  have h0: "sint (0 :: int64_t) \<le> 0" by simp
  have h1: "sint (- 3 :: int64_t) \<le> 0" by simp
  have h2: "stream_inv ?st" by (simp add: stream_inv_def)
  have D: "Delete ?st 2 = Returned 2 \<lparr>mBuffer = [3, 4, 5], mSize = 3, mPosition = 0\<rparr>"
    by (simp add: Delete_def vector_erase_def word_sle_eq)
  note a = nonpositive_length_no_op [OF h0, where st = ?st and B = "[]" and r = "- 3"]
  note b = nonpositive_length_no_op [OF h0, where st = ?st and B = "[]" and r = 2]
  from b h2 obtain d st1 where "Delete ?st 2 = Returned d st1"
    and "Update ?st [] 0 2 = Returned 0 st1"
    by blast
  with D have U: "Update ?st [] 0 2 = Returned 0 \<lparr>mBuffer = [3, 4, 5], mSize = 3, mPosition = 0\<rparr>"
    by simp
  show ?thesis using a h0 h1 h2 D U by simp
qed

subsection \<open>The invariant\<close>

text \<open>
  Claim C9. The invariant \<open>0 \<le> position \<le> size\<close> and \<open>size\<close> = number of bytes in
  the internal buffer holds after the constructor, which sets the size to the length of
  the byte sequence it is given and the position to 0, and every operation (\<open>Read\<close>,
  \<open>Write\<close>, \<open>Insert\<close>, \<open>Delete\<close>, \<open>Update\<close>, \<open>Seek\<close>, \<open>Flush\<close>, \<open>Position\<close>,
  \<open>Size\<close>) keeps it, whether it returns or raises. A \<open>std::vector\<close> holds at most
  \<open>2^63 - 1\<close> bytes, which bounds the constructor's argument. The operations that read
  the stream only are always defined on a stream with the invariant, the ones that
  take bytes from the caller are when the caller's buffer has the \<open>n\<close> bytes.
\<close>

theorem stream_inv_established_and_preserved:
  "(length buffer \<le> 9223372036854775807 \<longrightarrow>
      stream_inv (new_EditableStreamOverBuffer buffer) \<and>
      sint (mSize (new_EditableStreamOverBuffer buffer)) = int (length buffer) \<and>
      mPosition (new_EditableStreamOverBuffer buffer) = 0) \<and>
   (stream_inv st \<longrightarrow>
      outcome_inv (Read st L) \<and> Read st L \<noteq> Undefined \<and>
      outcome_inv (Delete st r) \<and> Delete st r \<noteq> Undefined \<and>
      outcome_inv (Seek st p) \<and> Seek st p \<noteq> Undefined \<and>
      outcome_inv (Flush st) \<and> outcome_inv (Position st) \<and> outcome_inv (Size st) \<and>
      outcome_inv (Size_set st v) \<and>
      outcome_inv (Insert st B n) \<and> outcome_inv (Update st B n r) \<and>
      outcome_inv (Write st B n) \<and>
      (sint n \<le> int (length B) \<longrightarrow>
         Insert st B n \<noteq> Undefined \<and> Update st B n r \<noteq> Undefined \<and>
         Write st B n \<noteq> Undefined))"
proof -
  have ctor: "length buffer \<le> 9223372036854775807 \<longrightarrow>
      stream_inv (new_EditableStreamOverBuffer buffer) \<and>
      sint (mSize (new_EditableStreamOverBuffer buffer)) = int (length buffer) \<and>
      mPosition (new_EditableStreamOverBuffer buffer) = 0"
    using new_stream_inv [of buffer] by simp
  have ops: "outcome_inv (Read st L) \<and> Read st L \<noteq> Undefined \<and>
      outcome_inv (Delete st r) \<and> Delete st r \<noteq> Undefined \<and>
      outcome_inv (Seek st p) \<and> Seek st p \<noteq> Undefined \<and>
      outcome_inv (Flush st) \<and> outcome_inv (Position st) \<and> outcome_inv (Size st) \<and>
      outcome_inv (Size_set st v) \<and>
      outcome_inv (Insert st B n) \<and> outcome_inv (Update st B n r) \<and>
      outcome_inv (Write st B n) \<and>
      (sint n \<le> int (length B) \<longrightarrow>
         Insert st B n \<noteq> Undefined \<and> Update st B n r \<noteq> Undefined \<and>
         Write st B n \<noteq> Undefined)" if i: "stream_inv st"
  proof -
    have simple: "outcome_inv (Flush st)" "outcome_inv (Position st)" "outcome_inv (Size st)"
      "outcome_inv (Size_set st v)"
      using i by (simp_all add: outcome_inv_def Flush_def Position_def Size_def Size_set_def)
    have w: "outcome_inv (Write st B n)"
      using Update_cases(1) [OF i, where B = B and n = n and r = n] by (simp add: Write_def)
    have wd: "sint n \<le> int (length B) \<Longrightarrow> Write st B n \<noteq> Undefined"
      using Update_cases(2) [OF i, where B = B and n = n and r = n] by (simp add: Write_def)
    show ?thesis
      using simple w wd Read_inv [OF i, of L] Delete_inv [OF i, of r] Seek_inv [OF i, of p]
        Seek_defined [of st p] Insert_cases [OF i, where B = B and n = n]
        Update_cases [OF i, where B = B and n = n and r = r]
      by simp
  qed
  show ?thesis using ctor ops by blast
qed

theorem stream_inv_established_and_preserved_witness:
  "length [1, 2, 3, 4, 5 :: uint8_t] \<le> 9223372036854775807 \<and>
   new_EditableStreamOverBuffer [1, 2, 3, 4, 5]
     = \<lparr>mBuffer = [1, 2, 3, 4, 5], mSize = 5, mPosition = 0\<rparr> \<and>
   stream_inv \<lparr>mBuffer = [1, 2, 3, 4, 5], mSize = 5, mPosition = 0\<rparr> \<and>
   Update \<lparr>mBuffer = [1, 2, 3, 4, 5], mSize = 5, mPosition = 0\<rparr> [0xFF] 1 2
     = Returned 1 \<lparr>mBuffer = [0xFF, 3, 4, 5], mSize = 4, mPosition = 1\<rparr> \<and>
   stream_inv \<lparr>mBuffer = [0xFF, 3, 4, 5], mSize = 4, mPosition = 1\<rparr> \<and>
   Update \<lparr>mBuffer = [1, 2, 3, 4, 5], mSize = 5, mPosition = 0\<rparr> [] int64_max 2
     = Thrown (runtime_error ''Inserting buffer would exceed maximum stream length.'')
         \<lparr>mBuffer = [3, 4, 5], mSize = 3, mPosition = 0\<rparr> \<and>
   stream_inv \<lparr>mBuffer = [3, 4, 5], mSize = 3, mPosition = 0\<rparr> \<and>
   sint (2 :: int64_t) \<le> int (length [0xAA, 0xBB :: uint8_t]) \<and>
   Insert \<lparr>mBuffer = [1, 2, 3, 4, 5], mSize = 5, mPosition = 0\<rparr> [0xAA, 0xBB] 2 \<noteq> Undefined"
proof -
  let ?st = "\<lparr>mBuffer = [1, 2, 3, 4, 5 :: uint8_t], mSize = 5, mPosition = 0\<rparr>"
  have len: "length [1, 2, 3, 4, 5 :: uint8_t] \<le> 9223372036854775807" by simp
  have new: "new_EditableStreamOverBuffer [1, 2, 3, 4, 5] = ?st"
    by (simp add: new_EditableStreamOverBuffer_def)
  have i: "stream_inv ?st"
    using stream_inv_established_and_preserved [where buffer = "[1, 2, 3, 4, 5]"] len new
    by simp
  have u1: "Update ?st [0xFF] 1 2
              = Returned 1 \<lparr>mBuffer = [0xFF, 3, 4, 5], mSize = 4, mPosition = 1\<rparr>"
    by (simp add: Update_def Delete_def Insert_def vector_erase_def vector_insert_def
        read_bytes_def word_sle_eq word_sless_alt int64_max_def)
  have u2: "Update ?st [] int64_max 2
              = Thrown (runtime_error ''Inserting buffer would exceed maximum stream length.'')
                  \<lparr>mBuffer = [3, 4, 5], mSize = 3, mPosition = 0\<rparr>"
    by (simp add: Update_def Delete_def Insert_def vector_erase_def word_sle_eq word_sless_alt
        int64_max_def)
  have i1: "stream_inv \<lparr>mBuffer = [0xFF, 3, 4, 5], mSize = 4, mPosition = 1\<rparr>"
    using stream_inv_established_and_preserved
            [where st = ?st and B = "[0xFF]" and n = 1 and r = 2] i u1
    by (simp add: outcome_inv_def)
  have i2: "stream_inv \<lparr>mBuffer = [3, 4, 5], mSize = 3, mPosition = 0\<rparr>"
    using stream_inv_established_and_preserved
            [where st = ?st and B = "[]" and n = int64_max and r = 2] i u2
    by (simp add: outcome_inv_def)
  have b: "sint (2 :: int64_t) \<le> int (length [0xAA, 0xBB :: uint8_t])" by simp
  have d: "Insert ?st [0xAA, 0xBB] 2 \<noteq> Undefined"
    using stream_inv_established_and_preserved
            [where st = ?st and B = "[0xAA, 0xBB]" and n = 2] i b
    by blast
  show ?thesis using len new i u1 i1 u2 i2 b d by simp
qed

subsection \<open>What an exception leaves behind\<close>

text \<open>
  Claim C10. The operations differ in what they leave behind when they raise. When
  \<open>Seek\<close>, the setter \<open>Size(value)\<close> or a direct \<open>Insert\<close> raises, buffer, size and
  position are exactly as before the call. When \<open>Update(B, n, r)\<close> raises the overflow
  error of its \<open>Insert\<close> step, its \<open>Delete(r)\<close> step has already taken effect: the
  \<open>min(r, size - position)\<close> bytes at the cursor are gone and the size is smaller by
  that count (nothing for \<open>r \<le> 0\<close>, where \<open>Delete\<close> does nothing), so the stream is
  not the one before the call as soon as a byte was deleted.
\<close>

theorem error_atomicity:
  "(Seek st p = Thrown e st' \<longrightarrow> st' = st) \<and>
   Size_set st v = Thrown (runtime_error ''Not Implemented'') st \<and>
   (Insert st B n = Thrown e st' \<longrightarrow> st' = st) \<and>
   (stream_inv st \<and> Update st B n r = Thrown e st' \<longrightarrow>
      e = runtime_error ''Inserting buffer would exceed maximum stream length.'' \<and>
      (\<exists>d. Delete st r = Returned d st' \<and>
           sint d = (if 0 < sint r then min (sint r) (sint (mSize st) - sint (mPosition st))
                     else 0) \<and>
           mBuffer st' = take (nat (sint (mPosition st))) (mBuffer st)
                           @ drop (nat (sint (mPosition st)) + nat (sint d)) (mBuffer st) \<and>
           sint (mSize st') = sint (mSize st) - sint d \<and>
           mPosition st' = mPosition st \<and>
           (0 < sint d \<longrightarrow> st' \<noteq> st)))"
proof -
  have S: "Seek st p = Thrown e st' \<longrightarrow> st' = st"
    by (simp add: Seek_def)
  have I: "Insert st1 B n = Thrown e st' \<longrightarrow> st' = st1" for st1
    by (simp add: Insert_def split: option.splits)
  have E: "Insert st1 B n = Thrown e st' \<longrightarrow>
             e = runtime_error ''Inserting buffer would exceed maximum stream length.''" for st1
    by (simp add: Insert_def split: option.splits)
  have U: "e = runtime_error ''Inserting buffer would exceed maximum stream length.'' \<and>
           (\<exists>d. Delete st r = Returned d st' \<and>
           sint d = (if 0 < sint r then min (sint r) (sint (mSize st) - sint (mPosition st))
                     else 0) \<and>
           mBuffer st' = take (nat (sint (mPosition st))) (mBuffer st)
                           @ drop (nat (sint (mPosition st)) + nat (sint d)) (mBuffer st) \<and>
           sint (mSize st') = sint (mSize st) - sint d \<and>
           mPosition st' = mPosition st \<and>
           (0 < sint d \<longrightarrow> st' \<noteq> st))"
    if i: "stream_inv st" and t: "Update st B n r = Thrown e st'"
  proof -
    obtain d st1 where D: "Delete st r = Returned d st1"
      and dv: "sint d = (if 0 < sint r then min (sint r) (sint (mSize st) - sint (mPosition st)) else 0)"
      and b: "mBuffer st1 = take (nat (sint (mPosition st))) (mBuffer st)
                           @ drop (nat (sint (mPosition st)) + nat (sint d)) (mBuffer st)"
      and s: "sint (mSize st1) = sint (mSize st) - sint d"
      and p: "mPosition st1 = mPosition st"
      using Delete_returns [OF i, of r] by blast
    have "Insert st1 B n = Thrown e st'" using t D by (simp add: Update_def)
    then have eq: "st' = st1"
      and ex: "e = runtime_error ''Inserting buffer would exceed maximum stream length.''"
      using I [of st1] E [of st1] by simp_all
    have "st1 \<noteq> st" if "0 < sint d"
    proof
      assume "st1 = st"
      then have "sint (mSize st) = sint (mSize st) - sint d" using s by simp
      then show False using that by simp
    qed
    then show ?thesis using D dv b s p eq ex by blast
  qed
  show ?thesis using S I [of st] U by (simp add: Size_set_def)
qed

theorem error_atomicity_witness:
  "Seek \<lparr>mBuffer = [1, 2, 3, 4, 5], mSize = 5, mPosition = 0\<rparr> 6
     = Thrown (runtime_error ''Position must not be larger than size.'')
         \<lparr>mBuffer = [1, 2, 3, 4, 5], mSize = 5, mPosition = 0\<rparr> \<and>
   Size_set \<lparr>mBuffer = [1, 2, 3, 4, 5], mSize = 5, mPosition = 0\<rparr> 9
     = Thrown (runtime_error ''Not Implemented'')
         \<lparr>mBuffer = [1, 2, 3, 4, 5], mSize = 5, mPosition = 0\<rparr> \<and>
   Insert \<lparr>mBuffer = [1, 2, 3, 4, 5], mSize = 5, mPosition = 0\<rparr> [] int64_max
     = Thrown (runtime_error ''Inserting buffer would exceed maximum stream length.'')
         \<lparr>mBuffer = [1, 2, 3, 4, 5], mSize = 5, mPosition = 0\<rparr> \<and>
   stream_inv \<lparr>mBuffer = [1, 2, 3, 4, 5], mSize = 5, mPosition = 0\<rparr> \<and>
   Update \<lparr>mBuffer = [1, 2, 3, 4, 5], mSize = 5, mPosition = 0\<rparr> [] int64_max 2
     = Thrown (runtime_error ''Inserting buffer would exceed maximum stream length.'')
         \<lparr>mBuffer = [3, 4, 5], mSize = 3, mPosition = 0\<rparr> \<and>
   Delete \<lparr>mBuffer = [1, 2, 3, 4, 5], mSize = 5, mPosition = 0\<rparr> 2
     = Returned 2 \<lparr>mBuffer = [3, 4, 5], mSize = 3, mPosition = 0\<rparr> \<and>
   \<lparr>mBuffer = [3, 4, 5], mSize = 3, mPosition = 0\<rparr>
     \<noteq> \<lparr>mBuffer = [1, 2, 3, 4, 5 :: uint8_t], mSize = 5 :: int64_t, mPosition = 0 :: int64_t\<rparr>"
proof -
  let ?st = "\<lparr>mBuffer = [1, 2, 3, 4, 5 :: uint8_t], mSize = 5, mPosition = 0\<rparr>"
  let ?st' = "\<lparr>mBuffer = [3, 4, 5 :: uint8_t], mSize = 3, mPosition = 0\<rparr>"
  let ?e = "runtime_error ''Inserting buffer would exceed maximum stream length.''"
  have s: "Seek ?st 6 = Thrown (runtime_error ''Position must not be larger than size.'') ?st"
    by (simp add: Seek_def word_sless_alt)
  have i: "Insert ?st [] int64_max = Thrown ?e ?st"
    by (simp add: Insert_def word_sle_eq word_sless_alt int64_max_def)
  have h: "stream_inv ?st" by (simp add: stream_inv_def)
  have u: "Update ?st [] int64_max 2 = Thrown ?e ?st'"
    by (simp add: Update_def Delete_def Insert_def vector_erase_def word_sle_eq word_sless_alt
        int64_max_def)
  note a = error_atomicity [where st = ?st and B = "[]" and n = int64_max and r = 2
      and e = ?e and st' = ?st' and v = 9]
  have sz: "Size_set ?st 9 = Thrown (runtime_error ''Not Implemented'') ?st"
    using a by blast
  from a h u obtain d where D: "Delete ?st 2 = Returned d ?st'"
    and dv: "sint d = (if 0 < sint (2 :: int64_t)
                       then min (sint (2 :: int64_t)) (sint (mSize ?st) - sint (mPosition ?st))
                       else 0)"
    and ne: "0 < sint d \<longrightarrow> ?st' \<noteq> ?st"
    by blast
  have d2: "sint d = 2" using dv by simp
  then have "d = 2"
    using word_eq_iff_signed [of d "2 :: int64_t", where ?'a = int] by simp
  then have D2: "Delete ?st 2 = Returned 2 ?st'" using D by simp
  have "?st' \<noteq> ?st" using ne d2 by simp
  then show ?thesis using s sz i h u D2 by simp
qed

end
